theory Spec2Isabelle
  imports Complex_Main "HOL-Library.Log_Nat"
begin

section \<open>Values: strings, exceptions, references\<close>

text \<open>
  A Python \<^verbatim>\<open>str\<close> is a sequence of Unicode code points; the glyphs of the health bar lie
  outside ASCII, so a string is modelled as the list of its code points. Python's \<^verbatim>\<open>int\<close> is
  unbounded and is modelled by \<^typ>\<open>int\<close>. Objects live in a store and are named by
  references, so that identity of objects is equality of references.
\<close>

type_synonym ustr = "nat list"

type_synonym ref = nat

datatype exn = AttributeError | ZeroDivisionError | OverflowError | ValueError | MemoryError

definition ascii :: "string \<Rightarrow> ustr" where
  "ascii cs = map of_char cs"

fun digits10 :: "nat \<Rightarrow> ustr" where
  "digits10 n = (if n < 10 then [48 + n] else digits10 (n div 10) @ [48 + n mod 10])"

declare digits10.simps [simp del]

text \<open>\<^verbatim>\<open>str(i)\<close> for an integer, as an f-string field \<^verbatim>\<open>{i}\<close> formats it. Since
  CPython 3.11 the conversion raises \<^verbatim>\<open>ValueError\<close> when the integer has more decimal digits
  than \<^verbatim>\<open>sys.get_int_max_str_digits()\<close>, which is 4300 unless the program changes it; the
  sources never do. The sign does not count as a digit.\<close>

definition max_str_digits :: nat where
  "max_str_digits = 4300"

definition str_int :: "int \<Rightarrow> exn + ustr" where
  "str_int i =
    (let ds = digits10 (nat \<bar>i\<bar>)
     in if max_str_digits < length ds then Inl ValueError
        else Inr (if i < 0 then 45 # ds else ds))"


section \<open>The object store\<close>

text \<open>
  Modelled from the spec: the module \<^verbatim>\<open>weapon.py\<close> (class \<^verbatim>\<open>Weapon\<close> and the shared instance
  \<^verbatim>\<open>fists\<close>) is imported by \<^verbatim>\<open>character.py\<close> but is not among the sources. The spec gives a
  weapon as the pair of a name and a damage value; the reference of \<^verbatim>\<open>fists\<close> is a parameter
  of the constructors below.

  The store maps every reference to an object, so no reference dangles, as in Python; a
  constructor allocates at the next free reference. The lines written by \<^verbatim>\<open>print\<close> are
  collected in \<open>stdout\<close>. A method returns the exception it raised, if any, with the store
  as the exception left it. \<open>max_alloc\<close> is the length of the longest string that the
  allocator can provide: it stands for the memory of the machine, which no operation of the
  program changes.
\<close>

record Weapon =
  wname :: ustr
  damage :: int

datatype cls = Character | Hero | Enemy

text \<open>
  The attributes set by \<^verbatim>\<open>Character.__init__\<close>, and the two that only the subclasses set:
  \<^verbatim>\<open>default_weapon\<close> (Hero) and \<^verbatim>\<open>health_bar\<close> (Hero and Enemy). An attribute that was
  never assigned is \<open>None\<close> here, and reading it raises \<^verbatim>\<open>AttributeError\<close>.
\<close>

record Character =
  cls_of :: cls
  name :: ustr
  health :: int
  health_max :: int
  weapon :: ref
  default_weapon :: "ref option"
  health_bar :: "ref option"

record HealthBar =
  entity :: ref
  bar_length :: int
  max_value :: int
  current_value :: int
  is_colored :: bool
  color :: ustr

record world =
  weapons :: "ref \<Rightarrow> Weapon"
  chars :: "ref \<Rightarrow> Character"
  bars :: "ref \<Rightarrow> HealthBar"
  next_char :: ref
  next_bar :: ref
  stdout :: "ustr list"
  max_alloc :: nat

definition print :: "ustr \<Rightarrow> world \<Rightarrow> world" where
  "print line s = s\<lparr>stdout := stdout s @ [line]\<rparr>"

definition set_health :: "ref \<Rightarrow> int \<Rightarrow> world \<Rightarrow> world" where
  "set_health c h s = s\<lparr>chars := (chars s)(c := (chars s c)\<lparr>health := h\<rparr>)\<rparr>"

definition set_weapon :: "ref \<Rightarrow> ref \<Rightarrow> world \<Rightarrow> world" where
  "set_weapon c w s = s\<lparr>chars := (chars s)(c := (chars s c)\<lparr>weapon := w\<rparr>)\<rparr>"

section \<open>healthbar.py: class attributes, constructor, update\<close>

definition symbol_remaining :: ustr where
  "symbol_remaining = [0x2588]"

definition symbol_lost :: ustr where
  "symbol_lost = [0x2591]"

definition barrier :: ustr where
  "barrier = [0x2502]"

text \<open>The escape sequence \<^verbatim>\<open>"\033[" + code + "m"\<close>; \<^verbatim>\<open>\033\<close> is code point 27.\<close>

definition esc :: "string \<Rightarrow> ustr" where
  "esc code = 27 # ascii (''['' @ code @ ''m'')"

definition colors :: "(string \<times> ustr) list" where
  "colors =
    [(''red'', esc ''91''),
     (''purple'', esc ''95''),
     (''blue'', esc ''94''),
     (''blue2'', esc ''96''),
     (''blue3'', esc ''94''),
     (''green'', esc ''92''),
     (''green2'', esc ''92''),
     (''yellow'', esc ''93''),
     (''gray'', esc ''90''),
     (''default'', esc ''0'')]"

text \<open>\<^verbatim>\<open>self.colors["default"]\<close>: subscription raises \<^verbatim>\<open>KeyError\<close> on a missing key; the key
  is present in the class dictionary, and the lookup below is shown to succeed.\<close>

definition colors_default :: ustr where
  "colors_default = the (map_of colors ''default'')"

text \<open>\<^verbatim>\<open>self.colors.get(color) or self.colors["default"]\<close>: \<^verbatim>\<open>get\<close> gives \<^verbatim>\<open>None\<close> on a
  missing key, and \<^verbatim>\<open>or\<close> takes its right operand when the left one is falsy, which for a
  string means empty.\<close>

definition resolve_color :: "string \<Rightarrow> ustr" where
  "resolve_color c =
    (case map_of colors c of
       None \<Rightarrow> colors_default
     | Some v \<Rightarrow> if v = [] then colors_default else v)"

text \<open>\<^verbatim>\<open>HealthBar.__init__(self, entity, length, is_colored, color)\<close>; the defaults of the
  source are \<^verbatim>\<open>length=20\<close>, \<^verbatim>\<open>is_colored=True\<close>, \<^verbatim>\<open>color="green"\<close>.\<close>

definition HealthBar_init :: "ref \<Rightarrow> int \<Rightarrow> bool \<Rightarrow> string \<Rightarrow> world \<Rightarrow> ref \<times> world" where
  "HealthBar_init ent len colored col s =
    (let self = next_bar s;
         obj = \<lparr>entity = ent, bar_length = len,
                max_value = health_max (chars s ent),
                current_value = health (chars s ent),
                is_colored = colored,
                color = resolve_color col\<rparr>
     in (self, s\<lparr>bars := (bars s)(self := obj), next_bar := Suc self\<rparr>))"

definition update :: "ref \<Rightarrow> world \<Rightarrow> world" where
  "update self s =
    s\<lparr>bars := (bars s)(self := (bars s self)\<lparr>current_value := health (chars s (entity (bars s self)))\<rparr>)\<rparr>"

section \<open>Python arithmetic: true division, float multiplication, round\<close>

text \<open>
  \<^verbatim>\<open>draw\<close> computes \<^verbatim>\<open>round(self.current_value / self.max_value * self.length)\<close>. On integers
  \<^verbatim>\<open>/\<close> is true division: the result is the binary64 float nearest to the exact quotient
  (ties to even), \<^verbatim>\<open>ZeroDivisionError\<close> for a zero divisor and \<^verbatim>\<open>OverflowError\<close> when the
  quotient is too large for a float. \<^verbatim>\<open>float * int\<close> converts the integer to the nearest float
  (\<^verbatim>\<open>OverflowError\<close> when it is too large) and multiplies in binary64 arithmetic, where an
  overflow gives an infinity. \<^verbatim>\<open>round\<close> of a float, with one argument, gives the nearest
  integer, ties to even, and raises \<^verbatim>\<open>OverflowError\<close> on an infinity.

  A finite float is modelled by the rational number it denotes. The sign of a zero is not
  kept: it has no influence on a product's magnitude or on \<^verbatim>\<open>round\<close>. No operation here
  yields a NaN (no operand is infinite). The arithmetic is that of IEEE 754 binary64 with
  rounding to nearest, ties to even, and gradual underflow.
\<close>

definition round_half_even :: "rat \<Rightarrow> int" where
  "round_half_even y =
    (let f = \<lfloor>y\<rfloor>; d = y - of_int f
     in if d < 1 / 2 then f else if 1 / 2 < d then f + 1 else if even f then f else f + 1)"

text \<open>The binary exponent of a positive rational \<open>a\<close>: the \<open>e\<close> with \<open>2\<^sup>e \<le> a < 2\<^sup>e\<^sup>+\<^sup>1\<close>,
  from the bit lengths of numerator and denominator.\<close>

definition ilog2 :: "rat \<Rightarrow> int" where
  "ilog2 a =
    (let (n, d) = quotient_of a; e0 = bitlen n - bitlen d
     in if 2 powi e0 \<le> a then e0 else e0 - 1)"

text \<open>Binary64 has 53 significant bits and least exponent \<open>-1074\<close> (the subnormal range):
  around \<open>x\<close> its values are the multiples of \<open>2 powi ulp_exp x\<close>.\<close>

definition ulp_exp :: "rat \<Rightarrow> int" where
  "ulp_exp x = max (ilog2 \<bar>x\<bar> - 52) (- 1074)"

definition round_to_grid :: "int \<Rightarrow> rat \<Rightarrow> rat" where
  "round_to_grid q x = of_int (round_half_even (x / 2 powi q)) * 2 powi q"

definition b64_nearest :: "rat \<Rightarrow> rat" where
  "b64_nearest x = (if x = 0 then 0 else round_to_grid (ulp_exp x) x)"

datatype pyfloat = Finite rat | Infinity

text \<open>The rounded result overflows when its magnitude reaches \<open>2\<^sup>1\<^sup>0\<^sup>2\<^sup>4\<close>.\<close>

definition b64_result :: "rat \<Rightarrow> pyfloat" where
  "b64_result x = (let r = b64_nearest x in if 2 ^ 1024 \<le> \<bar>r\<bar> then Infinity else Finite r)"

definition int_true_div :: "int \<Rightarrow> int \<Rightarrow> exn + rat" where
  "int_true_div a b =
    (if b = 0 then Inl ZeroDivisionError
     else case b64_result (of_int a / of_int b) of
            Infinity \<Rightarrow> Inl OverflowError
          | Finite r \<Rightarrow> Inr r)"

definition float_of_int :: "int \<Rightarrow> exn + rat" where
  "float_of_int n =
    (case b64_result (of_int n) of Infinity \<Rightarrow> Inl OverflowError | Finite r \<Rightarrow> Inr r)"

definition float_mul_int :: "rat \<Rightarrow> int \<Rightarrow> exn + pyfloat" where
  "float_mul_int a n =
    (case float_of_int n of Inl e \<Rightarrow> Inl e | Inr b \<Rightarrow> Inr (b64_result (a * b)))"

definition py_round :: "pyfloat \<Rightarrow> exn + int" where
  "py_round x =
    (case x of Infinity \<Rightarrow> Inl OverflowError | Finite r \<Rightarrow> Inr (round_half_even r))"

text \<open>\<^verbatim>\<open>n * s\<close> for an integer and a string, on a 64-bit build: the count must fit a signed
  64-bit index, a count below one gives the empty string, and the length of the result must
  fit as well. A result that fits but is longer than the allocator can provide, \<open>cap\<close>,
  raises \<^verbatim>\<open>MemoryError\<close>. Of all strings the program builds only these repetitions are
  checked against the allocator: their length is set by a number, where every other string
  is about as long as strings that exist already.\<close>

definition str_repeat :: "nat \<Rightarrow> int \<Rightarrow> ustr \<Rightarrow> exn + ustr" where
  "str_repeat cap n u =
    (if n < - (2 ^ 63) \<or> 2 ^ 63 \<le> n then Inl OverflowError
     else if 0 < n \<and> 2 ^ 63 \<le> int (length u) * n then Inl OverflowError
     else if cap < length u * nat n then Inl MemoryError
     else Inr (concat (replicate (nat n) u)))"

section \<open>healthbar.py: draw\<close>

text \<open>The first two statements of \<^verbatim>\<open>draw\<close>: the pair \<^verbatim>\<open>(remaining_bars, lost_bars)\<close>.\<close>

definition glyph_counts :: "HealthBar \<Rightarrow> exn + int \<times> int" where
  "glyph_counts self =
    (case int_true_div (current_value self) (max_value self) of
       Inl e \<Rightarrow> Inl e
     | Inr q \<Rightarrow>
        (case float_mul_int q (bar_length self) of
           Inl e \<Rightarrow> Inl e
         | Inr p \<Rightarrow>
            (case py_round p of
               Inl e \<Rightarrow> Inl e
             | Inr remaining_bars \<Rightarrow> Inr (remaining_bars, bar_length self - remaining_bars))))"

text \<open>The argument of the first \<^verbatim>\<open>print\<close>: it reads the entity, not the snapshot, and
  formats two integers, each of which can be too long to format.\<close>

definition header_line :: "Character \<Rightarrow> exn + ustr" where
  "header_line e =
    (case str_int (health e) of
       Inl x \<Rightarrow> Inl x
     | Inr h \<Rightarrow>
        (case str_int (health_max e) of
           Inl x \<Rightarrow> Inl x
         | Inr m \<Rightarrow> Inr (name e @ 39 # ascii ''s Health: '' @ h @ ascii ''/'' @ m)))"

text \<open>The argument of the second \<^verbatim>\<open>print\<close>; the fields of the f-string are evaluated from
  left to right.\<close>

definition bar_line :: "nat \<Rightarrow> HealthBar \<Rightarrow> int \<Rightarrow> int \<Rightarrow> exn + ustr" where
  "bar_line cap self remaining_bars lost_bars =
    (case str_repeat cap remaining_bars symbol_remaining of
       Inl e \<Rightarrow> Inl e
     | Inr rem \<Rightarrow>
        (case str_repeat cap lost_bars symbol_lost of
           Inl e \<Rightarrow> Inl e
         | Inr lost \<Rightarrow>
            Inr (barrier @ (if is_colored self then color self else []) @ rem @ lost
                 @ (if is_colored self then colors_default else []) @ barrier)))"

text \<open>\<^verbatim>\<open>draw\<close> is annotated \<^verbatim>\<open>-> str\<close> but has no \<^verbatim>\<open>return\<close>: what it produces is what it
  prints. An exception in the first \<^verbatim>\<open>print\<close>'s argument leaves nothing printed, one in the
  second \<^verbatim>\<open>print\<close>'s argument leaves the first line printed.\<close>

definition draw :: "ref \<Rightarrow> world \<Rightarrow> exn option \<times> world" where
  "draw self s =
    (let hb = bars s self
     in case glyph_counts hb of
          Inl e \<Rightarrow> (Some e, s)
        | Inr (remaining_bars, lost_bars) \<Rightarrow>
            (case header_line (chars s (entity hb)) of
               Inl e \<Rightarrow> (Some e, s)
             | Inr h \<Rightarrow>
                 let s1 = print h s
                 in case bar_line (max_alloc s) hb remaining_bars lost_bars of
                      Inl e \<Rightarrow> (Some e, s1)
                    | Inr l \<Rightarrow> (None, print l s1)))"

text \<open>The lines an operation adds to the standard output.\<close>

definition printed :: "(world \<Rightarrow> exn option \<times> world) \<Rightarrow> world \<Rightarrow> ustr list" where
  "printed m s = drop (length (stdout s)) (stdout (snd (m s)))"

section \<open>character.py\<close>

text \<open>\<^verbatim>\<open>Character.__init__\<close>, run on a freshly allocated object of class \<open>k\<close>.\<close>

definition Character_init :: "cls \<Rightarrow> ref \<Rightarrow> ustr \<Rightarrow> int \<Rightarrow> world \<Rightarrow> ref \<times> world" where
  "Character_init k fists nm h s =
    (let self = next_char s;
         obj = \<lparr>cls_of = k, name = nm, health = h, health_max = h, weapon = fists,
                default_weapon = None, health_bar = None\<rparr>
     in (self, s\<lparr>chars := (chars s)(self := obj), next_char := Suc self\<rparr>))"

text \<open>\<^verbatim>\<open>attack\<close>: the two assignments to the target's health, the update of its health bar,
  which raises when the target has none, and the report, whose f-string formats the damage
  and can raise after the health and the snapshot are written.\<close>

definition attack :: "ref \<Rightarrow> ref \<Rightarrow> world \<Rightarrow> exn option \<times> world" where
  "attack self target s =
    (let s1 = set_health target
                (health (chars s target) - damage (weapons s (weapon (chars s self)))) s;
         s2 = set_health target (max (health (chars s1 target)) 0) s1
     in case health_bar (chars s2 target) of
          None \<Rightarrow> (Some AttributeError, s2)
        | Some hb \<Rightarrow>
            let s3 = update hb s2;
                w = weapons s3 (weapon (chars s3 self))
            in case str_int (damage w) of
                 Inl e \<Rightarrow> (Some e, s3)
               | Inr d \<Rightarrow>
                   (None,
                    print (name (chars s3 self) @ ascii '' attacks '' @ name (chars s3 target)
                           @ ascii '' with '' @ wname w @ ascii '' for '' @ d
                           @ ascii '' damage.'') s3))"

definition Hero_init :: "ref \<Rightarrow> ustr \<Rightarrow> int \<Rightarrow> world \<Rightarrow> ref \<times> world" where
  "Hero_init fists nm h s =
    (let (self, s1) = Character_init Hero fists nm h s;
         s2 = s1\<lparr>chars := (chars s1)(self :=
                (chars s1 self)\<lparr>default_weapon := Some (weapon (chars s1 self))\<rparr>)\<rparr>;
         (hb, s3) = HealthBar_init self 20 True ''green'' s2
     in (self, s3\<lparr>chars := (chars s3)(self := (chars s3 self)\<lparr>health_bar := Some hb\<rparr>)\<rparr>))"

text \<open>\<^verbatim>\<open>equip\<close> and \<^verbatim>\<open>drop\<close> are methods of \<^verbatim>\<open>Hero\<close> only: on an object of another class
  the attribute lookup of the method itself raises.\<close>

definition equip :: "ref \<Rightarrow> ref \<Rightarrow> world \<Rightarrow> exn option \<times> world" where
  "equip self w s =
    (if cls_of (chars s self) \<noteq> Hero then (Some AttributeError, s)
     else let s1 = set_weapon self w s
          in (None, print (name (chars s1 self) @ ascii '' equipped '' @ wname (weapons s1 w)
                           @ ascii ''!'') s1))"

definition drop_weapon :: "ref \<Rightarrow> world \<Rightarrow> exn option \<times> world" where
  "drop_weapon self s =
    (if cls_of (chars s self) \<noteq> Hero then (Some AttributeError, s)
     else let dropped_weapon_name = wname (weapons s (weapon (chars s self)))
          in case default_weapon (chars s self) of
               None \<Rightarrow> (Some AttributeError, s)
             | Some d \<Rightarrow>
                 let s1 = set_weapon self d s
                 in (None, print (name (chars s1 self) @ ascii '' dropped ''
                                  @ dropped_weapon_name @ ascii ''.'') s1))"

definition Enemy_init :: "ref \<Rightarrow> ustr \<Rightarrow> int \<Rightarrow> ref \<Rightarrow> world \<Rightarrow> ref \<times> world" where
  "Enemy_init fists nm h w s =
    (let (self, s1) = Character_init Enemy fists nm h s;
         s2 = set_weapon self w s1;
         (hb, s3) = HealthBar_init self 20 True ''red'' s2
     in (self, s3\<lparr>chars := (chars s3)(self := (chars s3 self)\<lparr>health_bar := Some hb\<rparr>)\<rparr>))"

text \<open>A sequence of \<^verbatim>\<open>equip\<close> calls on one hero, one weapon after the other; an exception ends
  the sequence.\<close>

fun equip_all :: "ref \<Rightarrow> ref list \<Rightarrow> world \<Rightarrow> exn option \<times> world" where
  "equip_all self [] s = (None, s)"
| "equip_all self (w # ws) s =
     (case equip self w s of
        (None, s') \<Rightarrow> equip_all self ws s'
      | (Some e, s') \<Rightarrow> (Some e, s'))"

section \<open>Example worlds\<close>

text \<open>A store with six weapons, the last with a damage of 4301 digits, and the arena of the spec's scenarios: the hero Aria with
  \<open>hp\<close> health points (reference 0, health bar 0) and the enemy Goblin with 30 health points
  and weapon \<open>w\<close> (reference 1, health bar 1).\<close>

definition weapon_table :: "ref \<Rightarrow> Weapon" where
  "weapon_table =
    (\<lambda>_. \<lparr>wname = ascii ''Fists'', damage = 5\<rparr>)
      (1 := \<lparr>wname = ascii ''Club'', damage = 5\<rparr>,
       2 := \<lparr>wname = ascii ''Sword'', damage = 20\<rparr>,
       3 := \<lparr>wname = ascii ''Axe'', damage = 15\<rparr>,
       4 := \<lparr>wname = ascii ''Potion'', damage = - 5\<rparr>,
       5 := \<lparr>wname = ascii ''Comet'', damage = 10 ^ max_str_digits\<rparr>)"

definition base_world :: world where
  "base_world =
    \<lparr>weapons = weapon_table,
     chars = (\<lambda>_. \<lparr>cls_of = Character, name = [], health = 0, health_max = 0, weapon = 0,
                     default_weapon = None, health_bar = None\<rparr>),
     bars = (\<lambda>_. \<lparr>entity = 0, bar_length = 20, max_value = 0, current_value = 0,
                    is_colored = False, color = []\<rparr>),
     next_char = 0, next_bar = 0, stdout = [], max_alloc = 1000000\<rparr>"

definition hero_world :: world where
  "hero_world = snd (Hero_init 0 (ascii ''Aria'') 100 base_world)"

definition arena :: "int \<Rightarrow> ref \<Rightarrow> world" where
  "arena hp w =
    snd (Enemy_init 0 (ascii ''Goblin'') 30 w (snd (Hero_init 0 (ascii ''Aria'') hp base_world)))"




section \<open>The example worlds, evaluated\<close>

lemma arena_chars:
  "chars (arena hp w) 0 =
     \<lparr>cls_of = Hero, name = ascii ''Aria'', health = hp, health_max = hp, weapon = 0,
      default_weapon = Some 0, health_bar = Some 0\<rparr>"
  "chars (arena hp w) (Suc 0) =
     \<lparr>cls_of = Enemy, name = ascii ''Goblin'', health = 30, health_max = 30, weapon = w,
      default_weapon = None, health_bar = Some (Suc 0)\<rparr>"
  by (simp_all add: arena_def Hero_init_def Enemy_init_def Character_init_def HealthBar_init_def
      set_weapon_def base_world_def Let_def)

lemma arena_bars:
  "bars (arena hp w) 0 =
     \<lparr>entity = 0, bar_length = 20, max_value = hp, current_value = hp, is_colored = True,
      color = resolve_color ''green''\<rparr>"
  "bars (arena hp w) (Suc 0) =
     \<lparr>entity = Suc 0, bar_length = 20, max_value = 30, current_value = 30, is_colored = True,
      color = resolve_color ''red''\<rparr>"
  by (simp_all add: arena_def Hero_init_def Enemy_init_def Character_init_def HealthBar_init_def
      set_weapon_def base_world_def Let_def)

lemma arena_weapons: "weapons (arena hp w) = weapon_table"
  by (simp add: arena_def Hero_init_def Enemy_init_def Character_init_def HealthBar_init_def
      set_weapon_def base_world_def Let_def)

lemma arena_stdout: "stdout (arena hp w) = []"
  by (simp add: arena_def Hero_init_def Enemy_init_def Character_init_def HealthBar_init_def
      set_weapon_def base_world_def Let_def)

lemma arena_max_alloc: "max_alloc (arena hp w) = 1000000"
  by (simp add: arena_def Hero_init_def Enemy_init_def Character_init_def HealthBar_init_def
      set_weapon_def base_world_def Let_def)




section \<open>The constructors\<close>

text \<open>A hero or an enemy is constructed with a health bar that observes it.\<close>

lemma Hero_init_bar:
  assumes "Hero_init fists nm hp s = (h, s')"
  shows "\<exists>hb. health_bar (chars s' h) = Some hb \<and> entity (bars s' hb) = h
           \<and> current_value (bars s' hb) = health (chars s' h)
           \<and> max_value (bars s' hb) = health_max (chars s' h)
           \<and> bar_length (bars s' hb) = 20 \<and> is_colored (bars s' hb)
           \<and> color (bars s' hb) = resolve_color ''green''"
  using assms
  by (auto simp add: Hero_init_def Character_init_def HealthBar_init_def Let_def)

lemma Enemy_init_bar:
  assumes "Enemy_init fists nm hp w s = (e, s')"
  shows "\<exists>hb. health_bar (chars s' e) = Some hb \<and> entity (bars s' hb) = e
           \<and> current_value (bars s' hb) = health (chars s' e)
           \<and> max_value (bars s' hb) = health_max (chars s' e)
           \<and> bar_length (bars s' hb) = 20 \<and> is_colored (bars s' hb)
           \<and> color (bars s' hb) = resolve_color ''red''"
    and "weapon (chars s' e) = w" and "cls_of (chars s' e) = Enemy"
  using assms
  by (auto simp add: Enemy_init_def Character_init_def HealthBar_init_def set_weapon_def Let_def)

section \<open>Rounding: nearest, ties to even\<close>

lemma rhe_of_int: "round_half_even (of_int n) = n"
  by (simp add: round_half_even_def)

lemma rhe_cases:
  fixes y :: rat
  defines "f \<equiv> \<lfloor>y\<rfloor>"
  shows "round_half_even y = f \<or> round_half_even y = f + 1"
  by (simp add: round_half_even_def f_def Let_def)

lemma rhe_near: "\<bar>of_int (round_half_even y) - y\<bar> \<le> 1 / 2"
proof -
  have "of_int \<lfloor>y\<rfloor> \<le> y" "y < of_int \<lfloor>y\<rfloor> + 1" by linarith+
  then show ?thesis
    by (auto simp: round_half_even_def Let_def)
qed

lemma rhe_tie: "\<bar>of_int (round_half_even y) - y\<bar> = 1 / 2 \<Longrightarrow> even (round_half_even y)"
proof -
  assume a: "\<bar>of_int (round_half_even y) - y\<bar> = 1 / 2"
  have "of_int \<lfloor>y\<rfloor> \<le> y" "y < of_int \<lfloor>y\<rfloor> + 1" by linarith+
  with a show ?thesis
    by (auto simp: round_half_even_def Let_def split: if_splits)
qed

lemma rhe_unique_lt: "\<bar>of_int n - y\<bar> < 1 / 2 \<Longrightarrow> round_half_even y = n"
proof -
  assume a: "\<bar>of_int n - y\<bar> < 1 / 2"
  have "\<bar>of_int (round_half_even y) - y\<bar> \<le> 1 / 2" by (rule rhe_near)
  with a have "\<bar>(of_int (round_half_even y) :: rat) - of_int n\<bar> < 1" by linarith
  then have "\<bar>round_half_even y - n\<bar> < 1"
    by (metis of_int_abs of_int_diff of_int_less_1_iff)
  then show ?thesis by linarith
qed

lemma rhe_unique:
  assumes "\<bar>of_int n - y\<bar> \<le> 1 / 2" "\<bar>of_int n - y\<bar> = 1 / 2 \<longrightarrow> even n"
  shows "round_half_even y = n"
proof (cases "\<bar>of_int n - y\<bar> < 1 / 2")
  case True
  then show ?thesis by (rule rhe_unique_lt)
next
  case False
  with assms have tie: "\<bar>of_int n - y\<bar> = 1 / 2" and en: "even n" by auto
  define m where "m = round_half_even y"
  have near: "\<bar>of_int m - y\<bar> \<le> 1 / 2" unfolding m_def by (rule rhe_near)
  from tie near have "\<bar>(of_int m :: rat) - of_int n\<bar> \<le> 1" by linarith
  then have "\<bar>(of_int (m - n) :: rat)\<bar> \<le> 1" by simp
  then have d: "\<bar>m - n\<bar> \<le> 1"
    by (metis of_int_abs of_int_le_1_iff)
  show ?thesis
  proof (rule ccontr)
    assume "round_half_even y \<noteq> n"
    with d have mn: "m = n + 1 \<or> m = n - 1" unfolding m_def by linarith
    then have "(of_int m :: rat) = of_int n + 1 \<or> (of_int m :: rat) = of_int n - 1" by auto
    with tie near have "\<bar>of_int m - y\<bar> = 1 / 2" by linarith
    then have "even m" unfolding m_def by (rule rhe_tie)
    with mn en show False by auto
  qed
qed

lemma rhe_mono: "x \<le> y \<Longrightarrow> round_half_even x \<le> round_half_even y"
proof -
  assume xy: "x \<le> y"
  then have fl: "\<lfloor>x\<rfloor> \<le> \<lfloor>y\<rfloor>" by (rule floor_mono)
  show ?thesis
  proof (cases "\<lfloor>x\<rfloor> = \<lfloor>y\<rfloor>")
    case True
    with xy show ?thesis
      by (auto simp: round_half_even_def Let_def)
  next
    case False
    with fl have "\<lfloor>x\<rfloor> + 1 \<le> \<lfloor>y\<rfloor>" by linarith
    moreover have "round_half_even x \<le> \<lfloor>x\<rfloor> + 1" using rhe_cases [of x] by linarith
    moreover have "\<lfloor>y\<rfloor> \<le> round_half_even y" using rhe_cases [of y] by linarith
    ultimately show ?thesis by linarith
  qed
qed

section \<open>The binary exponent\<close>

lemma bitlen_powi:
  assumes "0 < n"
  shows "(2::rat) powi (bitlen n - 1) \<le> of_int n" and "of_int n < (2::rat) powi bitlen n"
proof -
  from assms have b: "1 \<le> bitlen n"
    using bitlen_eq_zero_iff [of n] bitlen_nonneg [of n] by linarith
  from bitlen_bounds [OF assms]
  have lo: "2 ^ nat (bitlen n - 1) \<le> n" and hi: "n < 2 ^ nat (bitlen n)" by simp_all
  from lo have "(of_int (2 ^ nat (bitlen n - 1)) :: rat) \<le> of_int n"
    by (simp only: of_int_le_iff)
  with b show "(2::rat) powi (bitlen n - 1) \<le> of_int n"
    by (simp add: power_int_nonneg_exp)
  from hi have "(of_int n :: rat) < of_int (2 ^ nat (bitlen n))"
    by (simp only: of_int_less_iff)
  with b show "of_int n < (2::rat) powi bitlen n"
    by (simp add: power_int_nonneg_exp)
qed

lemma powi2_less_cancel: "(2::rat) powi i < 2 powi j \<Longrightarrow> i < j"
proof (rule ccontr)
  assume a: "(2::rat) powi i < 2 powi j" and "\<not> i < j"
  then have "j \<le> i" by simp
  then have "(2::rat) powi j \<le> 2 powi i" by (intro power_int_increasing) simp_all
  with a show False by simp
qed

lemma ilog2_bounds:
  assumes "0 < a"
  shows "2 powi ilog2 a \<le> a" and "a < 2 powi (ilog2 a + 1)"
proof -
  obtain n d where q: "quotient_of a = (n, d)" by (cases "quotient_of a")
  then have d: "0 < d" and a: "a = of_int n / of_int d"
    by (rule quotient_of_denom_pos, rule quotient_of_div)
  from assms a d have n: "0 < n" by (simp add: zero_less_divide_iff)
  define e0 where "e0 = bitlen n - bitlen d"
  have dpos: "(0::rat) < of_int d" using d by simp
  have "a < 2 powi bitlen n / 2 powi (bitlen d - 1)"
  proof -
    have "a \<le> of_int n / 2 powi (bitlen d - 1)"
      unfolding a using bitlen_powi(1) [OF d] n dpos
      by (intro divide_left_mono) (simp_all)
    also have "\<dots> < 2 powi bitlen n / 2 powi (bitlen d - 1)"
      using bitlen_powi(2) [OF n] by (intro divide_strict_right_mono) simp_all
    finally show ?thesis .
  qed
  also have "\<dots> = 2 powi (e0 + 1)"
    by (simp add: e0_def power_int_diff [symmetric] algebra_simps)
  finally have hi: "a < 2 powi (e0 + 1)" .
  have "2 powi (e0 - 1) = (2::rat) powi (bitlen n - 1) / 2 powi bitlen d"
    by (simp add: e0_def power_int_diff [symmetric] algebra_simps)
  also have "\<dots> \<le> of_int n / 2 powi bitlen d"
    using bitlen_powi(1) [OF n] by (intro divide_right_mono) simp_all
  also have "\<dots> \<le> a"
    unfolding a using bitlen_powi(2) [OF d] n dpos
    by (intro divide_left_mono) simp_all
  finally have lo: "2 powi (e0 - 1) \<le> a" .
  have il: "ilog2 a = (if 2 powi e0 \<le> a then e0 else e0 - 1)"
    by (simp add: ilog2_def q e0_def Let_def)
  show "2 powi ilog2 a \<le> a" using lo by (simp add: il)
  show "a < 2 powi (ilog2 a + 1)" using hi by (auto simp add: il not_le)
qed

lemma ilog2_unique:
  assumes "0 < a" "2 powi e \<le> a" "a < 2 powi (e + 1)"
  shows "ilog2 a = e"
proof -
  from ilog2_bounds [OF assms(1)] assms(2,3)
  have "(2::rat) powi e < 2 powi (ilog2 a + 1)" "(2::rat) powi ilog2 a < 2 powi (e + 1)"
    by linarith+
  then have "e < ilog2 a + 1" "ilog2 a < e + 1" by (auto dest: powi2_less_cancel)
  then show ?thesis by simp
qed

lemma ilog2_mono:
  assumes "0 < a" "a \<le> b"
  shows "ilog2 a \<le> ilog2 b"
proof -
  from assms have b: "0 < b" by simp
  from ilog2_bounds(1) [OF assms(1)] ilog2_bounds(2) [OF b] assms(2)
  have "(2::rat) powi ilog2 a < 2 powi (ilog2 b + 1)" by linarith
  then have "ilog2 a < ilog2 b + 1" by (rule powi2_less_cancel)
  then show ?thesis by simp
qed

section \<open>Rounding to binary64: exact on its own values, monotone\<close>

lemma grid_point:
  assumes "q \<le> j"
  shows "of_int k * (2::rat) powi j = of_int (k * 2 ^ nat (j - q)) * 2 powi q"
proof -
  have "(2::rat) powi j = 2 powi (j - q) * 2 powi q"
    by (simp add: power_int_add [symmetric])
  also have "(2::rat) powi (j - q) = 2 ^ nat (j - q)"
    using assms by (simp add: power_int_nonneg_exp)
  finally show ?thesis by simp
qed

lemma round_to_grid_le:
  assumes "x \<le> of_int k * 2 powi j" "q \<le> j"
  shows "round_to_grid q x \<le> of_int k * 2 powi j"
proof -
  define K where "K = k * 2 ^ nat (j - q)"
  have g: "of_int k * (2::rat) powi j = of_int K * 2 powi q"
    unfolding K_def by (rule grid_point [OF assms(2)])
  have p: "(0::rat) < 2 powi q" by simp
  from assms(1) have "x / 2 powi q \<le> of_int K"
    unfolding g using p by (simp add: pos_divide_le_eq)
  then have "round_half_even (x / 2 powi q) \<le> K"
    using rhe_mono rhe_of_int by metis
  then have "(of_int (round_half_even (x / 2 powi q)) :: rat) \<le> of_int K" by simp
  then show ?thesis
    unfolding g round_to_grid_def using p by (simp only: mult_le_cancel_right_pos)
qed

lemma round_to_grid_ge:
  assumes "of_int k * 2 powi j \<le> x" "q \<le> j"
  shows "of_int k * 2 powi j \<le> round_to_grid q x"
proof -
  define K where "K = k * 2 ^ nat (j - q)"
  have g: "of_int k * (2::rat) powi j = of_int K * 2 powi q"
    unfolding K_def by (rule grid_point [OF assms(2)])
  have p: "(0::rat) < 2 powi q" by simp
  from assms(1) have "of_int K \<le> x / 2 powi q"
    unfolding g using p by (simp add: pos_le_divide_eq)
  then have "K \<le> round_half_even (x / 2 powi q)"
    using rhe_mono rhe_of_int by metis
  then have "(of_int K :: rat) \<le> of_int (round_half_even (x / 2 powi q))" by simp
  then show ?thesis
    unfolding g round_to_grid_def using p by (simp only: mult_le_cancel_right_pos)
qed

lemma round_to_grid_exact:
  "q \<le> j \<Longrightarrow> round_to_grid q (of_int k * 2 powi j) = of_int k * 2 powi j"
  by (intro antisym round_to_grid_le round_to_grid_ge) simp_all

lemma ulp_exp_le:
  assumes "k \<noteq> 0" "\<bar>k\<bar> < 2 ^ 53" "- 1074 \<le> j"
  shows "ulp_exp (of_int k * 2 powi j) \<le> j"
proof -
  define x :: rat where "x = of_int k * 2 powi j"
  have ax: "\<bar>x\<bar> = of_int \<bar>k\<bar> * 2 powi j" by (simp add: x_def abs_mult)
  from assms(1) have pos: "0 < \<bar>x\<bar>" by (simp add: x_def)
  from assms(2) have "(of_int \<bar>k\<bar> :: rat) < of_int (2 ^ 53)" by (simp only: of_int_less_iff)
  then have "\<bar>x\<bar> < 2 powi 53 * 2 powi j"
    unfolding ax by (intro mult_strict_right_mono) simp_all
  also have "\<dots> = 2 powi (53 + j)" by (simp add: power_int_add)
  finally have "\<bar>x\<bar> < 2 powi (53 + j)" .
  with ilog2_bounds(1) [OF pos] have "(2::rat) powi ilog2 \<bar>x\<bar> < 2 powi (53 + j)" by linarith
  then have "ilog2 \<bar>x\<bar> < 53 + j" by (rule powi2_less_cancel)
  with assms(3) show ?thesis by (simp add: ulp_exp_def x_def)
qed

lemma b64_nearest_exact:
  assumes "\<bar>k\<bar> < 2 ^ 53" "- 1074 \<le> j"
  shows "b64_nearest (of_int k * 2 powi j) = of_int k * 2 powi j"
proof (cases "k = 0")
  case True
  then show ?thesis by (simp add: b64_nearest_def)
next
  case False
  then have "of_int k * (2::rat) powi j \<noteq> 0" by simp
  then show ?thesis
    using round_to_grid_exact [OF ulp_exp_le [OF False assms]]
    by (simp add: b64_nearest_def)
qed

lemma b64_nearest_int:
  assumes "\<bar>n\<bar> \<le> 2 ^ 53"
  shows "b64_nearest (of_int n) = of_int n"
proof (cases "\<bar>n\<bar> = 2 ^ 53")
  case True
  then have "n = 1 * 2 ^ 53 \<or> n = (- 1) * 2 ^ 53" by linarith
  then have "(of_int n :: rat) = of_int 1 * 2 powi 53 \<or> (of_int n :: rat) = of_int (- 1) * 2 powi 53"
    by auto
  then show ?thesis
    using b64_nearest_exact [of 1 53] b64_nearest_exact [of "- 1" 53] by auto
next
  case False
  with assms have "\<bar>n\<bar> < 2 ^ 53" by linarith
  from b64_nearest_exact [OF this, of 0] show ?thesis by simp
qed

lemma b64_nearest_nonneg:
  assumes "0 \<le> x"
  shows "0 \<le> b64_nearest x"
proof (cases "x = 0")
  case True
  then show ?thesis by (simp add: b64_nearest_def)
next
  case False
  from assms have "of_int 0 * 2 powi ulp_exp x \<le> x" by simp
  from round_to_grid_ge [OF this order_refl] False show ?thesis
    by (simp add: b64_nearest_def)
qed

lemma ulp_exp_mono:
  assumes "0 < x" "x \<le> y"
  shows "ulp_exp x \<le> ulp_exp y"
  using ilog2_mono [of "\<bar>x\<bar>" "\<bar>y\<bar>"] assms by (simp add: ulp_exp_def)

lemma b64_nearest_mono:
  assumes "0 \<le> x" "x \<le> y"
  shows "b64_nearest x \<le> b64_nearest y"
proof (cases "x = 0")
  case True
  with assms b64_nearest_nonneg [of y] show ?thesis by (simp add: b64_nearest_def)
next
  case False
  with assms have x: "0 < x" and y: "0 < y" by simp_all
  have qq: "ulp_exp x \<le> ulp_exp y" using x assms(2) by (rule ulp_exp_mono)
  show ?thesis
  proof (cases "ulp_exp x = ulp_exp y")
    case True
    have "x / 2 powi ulp_exp y \<le> y / 2 powi ulp_exp y"
      using assms(2) by (intro divide_right_mono) simp_all
    then have "round_half_even (x / 2 powi ulp_exp y) \<le> round_half_even (y / 2 powi ulp_exp y)"
      by (rule rhe_mono)
    then have "round_to_grid (ulp_exp y) x \<le> round_to_grid (ulp_exp y) y"
      by (simp add: round_to_grid_def)
    with True x y show ?thesis by (simp add: b64_nearest_def)
  next
    case False
    with qq have lt: "ulp_exp x < ulp_exp y" by simp
    define ex ey where "ex = ilog2 x" and "ey = ilog2 y"
    from lt x y have qy: "ulp_exp y = ey - 52" and exy: "ex + 1 \<le> ey"
      by (auto simp: ulp_exp_def ex_def ey_def max_def split: if_splits)
    have "x < 2 powi (ex + 1)" unfolding ex_def using x by (rule ilog2_bounds(2))
    also have "\<dots> \<le> 2 powi ey" using exy by (intro power_int_increasing) simp_all
    finally have xg: "x \<le> of_int 1 * 2 powi ey" by simp
    have gy: "of_int 1 * 2 powi ey \<le> y"
      unfolding ey_def using ilog2_bounds(1) [OF y] by simp
    have "round_to_grid (ulp_exp x) x \<le> of_int 1 * 2 powi ey"
      using xg by (rule round_to_grid_le) (use lt qy in simp)
    also have "\<dots> \<le> round_to_grid (ulp_exp y) y"
      using gy by (rule round_to_grid_ge) (use qy in simp)
    finally show ?thesis using x y by (simp add: b64_nearest_def)
  qed
qed

lemma round_to_grid_near: "\<bar>round_to_grid q x - x\<bar> \<le> 2 powi q / 2"
proof -
  have p: "(0::rat) < 2 powi q" by simp
  have "round_to_grid q x - x = (of_int (round_half_even (x / 2 powi q)) - x / 2 powi q) * 2 powi q"
    by (simp add: round_to_grid_def algebra_simps)
  then have "\<bar>round_to_grid q x - x\<bar>
      = \<bar>of_int (round_half_even (x / 2 powi q)) - x / 2 powi q\<bar> * 2 powi q"
    using p by (simp add: abs_mult)
  also have "\<dots> \<le> 1 / 2 * 2 powi q"
    using rhe_near [of "x / 2 powi q"] p by (intro mult_right_mono) simp_all
  finally show ?thesis by simp
qed

lemma b64_nearest_near: "\<bar>b64_nearest x - x\<bar> \<le> 2 powi ulp_exp x / 2"
  using round_to_grid_near [of "ulp_exp x" x] by (simp add: b64_nearest_def)

lemma b64_nearest_eval:
  assumes "0 < x" "2 powi e \<le> x" "x < 2 powi (e + 1)" "- 1022 \<le> e"
    and "\<bar>of_int m - x / 2 powi (e - 52)\<bar> \<le> 1 / 2"
    and "\<bar>of_int m - x / 2 powi (e - 52)\<bar> = 1 / 2 \<longrightarrow> even m"
  shows "b64_nearest x = of_int m * 2 powi (e - 52)"
proof -
  from assms(1-3) have "ilog2 \<bar>x\<bar> = e" by (intro ilog2_unique) simp_all
  with assms(4) have "ulp_exp x = e - 52" by (simp add: ulp_exp_def)
  moreover have "round_half_even (x / 2 powi (e - 52)) = m"
    using assms(5,6) by (rule rhe_unique)
  ultimately show ?thesis using assms(1) by (simp add: b64_nearest_def round_to_grid_def)
qed

lemma b64_result_bounded:
  assumes "0 \<le> x" "x \<le> of_int n" "n \<le> 2 ^ 53"
  shows "b64_result x = Finite (b64_nearest x)" "0 \<le> b64_nearest x" "b64_nearest x \<le> of_int n"
proof -
  from assms(1,2) have "(0::rat) \<le> of_int n" by linarith
  then have n0: "0 \<le> n" by simp
  with assms(3) have "\<bar>n\<bar> \<le> 2 ^ 53" by simp
  then have ex: "b64_nearest (of_int n) = of_int n" by (rule b64_nearest_int)
  show lo: "0 \<le> b64_nearest x" using assms(1) by (rule b64_nearest_nonneg)
  show hi: "b64_nearest x \<le> of_int n"
    using b64_nearest_mono [OF assms(1,2)] ex by simp
  have "(of_int n :: rat) \<le> of_int (2 ^ 53)" using assms(3) by (simp only: of_int_le_iff)
  with hi have "b64_nearest x \<le> 2 ^ 53" by simp
  also have "(2::rat) ^ 53 < 2 ^ 1024" by (rule power_strict_increasing) simp_all
  finally have "\<bar>b64_nearest x\<bar> < 2 ^ 1024" using lo by simp
  then show "b64_result x = Finite (b64_nearest x)" by (simp add: b64_result_def Let_def)
qed

text \<open>Rounding is symmetric, and its results are binary64 values: rounding them again changes
  nothing.\<close>

lemma rhe_minus: "round_half_even (- y) = - round_half_even y"
proof (rule rhe_unique)
  have eq: "\<bar>of_int (- round_half_even y) - - y\<bar> = \<bar>of_int (round_half_even y) - y\<bar>"
    by (simp add: abs_minus_commute)
  show "\<bar>of_int (- round_half_even y) - - y\<bar> \<le> 1 / 2"
    unfolding eq by (rule rhe_near)
  show "\<bar>of_int (- round_half_even y) - - y\<bar> = 1 / 2 \<longrightarrow> even (- round_half_even y)"
    unfolding eq using rhe_tie [of y] by simp
qed

lemma b64_nearest_minus: "b64_nearest (- x) = - b64_nearest x"
  by (simp add: b64_nearest_def round_to_grid_def ulp_exp_def rhe_minus)

lemma mantissa_bound:
  assumes "0 < x"
  shows "round_half_even (x / 2 powi ulp_exp x) \<le> 2 ^ 53"
proof -
  define e where "e = ilog2 x"
  define q where "q = ulp_exp x"
  have q: "e - 52 \<le> q" using assms by (simp add: q_def e_def ulp_exp_def)
  have p: "(0::rat) < 2 powi q" by simp
  have "x < 2 powi (e + 1)" unfolding e_def using assms by (rule ilog2_bounds(2))
  also have "\<dots> \<le> 2 powi (53 + q)" using q by (intro power_int_increasing) simp_all
  also have "\<dots> = 2 powi 53 * 2 powi q" by (simp add: power_int_add)
  finally have "x / 2 powi q \<le> of_int (2 ^ 53)"
    using p by (simp add: pos_divide_le_eq)
  then have "round_half_even (x / 2 powi q) \<le> round_half_even (of_int (2 ^ 53))"
    by (rule rhe_mono)
  then show ?thesis unfolding q_def by (simp only: rhe_of_int)
qed

lemma b64_nearest_idem_pos:
  assumes "0 < x"
  shows "b64_nearest (b64_nearest x) = b64_nearest x"
proof -
  define q where "q = ulp_exp x"
  define m where "m = round_half_even (x / 2 powi q)"
  have q: "- 1074 \<le> q" by (simp add: q_def ulp_exp_def)
  have r: "b64_nearest x = of_int m * 2 powi q"
    using assms by (simp add: b64_nearest_def round_to_grid_def m_def q_def)
  have "round_half_even (of_int 0) \<le> m"
    unfolding m_def using assms by (intro rhe_mono) simp
  then have m0: "0 \<le> m" by (simp only: rhe_of_int)
  have m1: "m \<le> 2 ^ 53" unfolding m_def q_def using assms by (rule mantissa_bound)
  show ?thesis
  proof (cases "m = 2 ^ 53")
    case True
    have "of_int m * (2::rat) powi q = of_int 1 * 2 powi (53 + q)"
      by (simp add: True power_int_add)
    moreover have "b64_nearest (of_int 1 * 2 powi (53 + q)) = of_int 1 * 2 powi (53 + q)"
      using q by (intro b64_nearest_exact) simp_all
    ultimately show ?thesis by (simp only: r)
  next
    case False
    with m0 m1 have "\<bar>m\<bar> < 2 ^ 53" by simp
    from b64_nearest_exact [OF this q] show ?thesis by (simp only: r)
  qed
qed

lemma b64_nearest_idem: "b64_nearest (b64_nearest x) = b64_nearest x"
proof (cases "0 < x")
  case True
  then show ?thesis by (rule b64_nearest_idem_pos)
next
  case False
  show ?thesis
  proof (cases "x = 0")
    case True
    then show ?thesis by (simp add: b64_nearest_def)
  next
    case False
    with \<open>\<not> 0 < x\<close> have "0 < - x" by simp
    from b64_nearest_idem_pos [OF this] show ?thesis
      by (simp add: b64_nearest_minus)
  qed
qed




section \<open>The operations of the glyph computation\<close>


lemma int_true_div_unit:
  assumes "0 \<le> a" "a \<le> b" "0 < b"
  shows "\<exists>q. int_true_div a b = Inr q \<and> 0 \<le> q \<and> q \<le> 1 \<and> (a = b \<longrightarrow> q = 1) \<and> (a = 0 \<longrightarrow> q = 0)"
proof -
  define x :: rat where "x = of_int a / of_int b"
  from assms have x0: "0 \<le> x" and x1: "x \<le> of_int 1"
    by (simp_all add: x_def divide_le_eq)
  note B = b64_result_bounded [OF x0 x1]
  have r: "int_true_div a b = Inr (b64_nearest x)"
    using assms(3) B(1) by (simp add: int_true_div_def x_def)
  have full: "a = b \<longrightarrow> b64_nearest x = 1"
    using assms(3) b64_nearest_int [of 1] by (auto simp add: x_def)
  have none: "a = 0 \<longrightarrow> b64_nearest x = 0" by (simp add: x_def b64_nearest_def)
  from r B(2,3) full none show ?thesis by simp
qed

lemma float_of_int_exact:
  assumes "\<bar>n\<bar> \<le> 2 ^ 53"
  shows "float_of_int n = Inr (of_int n)"
proof -
  have "\<bar>(of_int n :: rat)\<bar> = of_int \<bar>n\<bar>" by simp
  also have "\<dots> \<le> of_int (2 ^ 53)" using assms by (simp only: of_int_le_iff)
  also have "\<dots> < (2::rat) ^ 1024" by simp
  finally have "\<not> 2 ^ 1024 \<le> \<bar>(of_int n :: rat)\<bar>" by simp
  then show ?thesis
    using b64_nearest_int [OF assms] by (simp add: float_of_int_def b64_result_def Let_def)
qed

lemma float_mul_int_unit:
  assumes "0 \<le> q" "q \<le> 1" "0 \<le> n" "n \<le> 2 ^ 53"
  shows "\<exists>p. float_mul_int q n = Inr (Finite p) \<and> 0 \<le> p \<and> p \<le> of_int n
           \<and> (q = 1 \<longrightarrow> p = of_int n) \<and> (q = 0 \<longrightarrow> p = 0)"
proof -
  from assms(3,4) have an: "\<bar>n\<bar> \<le> 2 ^ 53" by simp
  have n0: "(0::rat) \<le> of_int n" using assms(3) by simp
  have x0: "0 \<le> q * of_int n" using assms(1) n0 by simp
  have x1: "q * of_int n \<le> of_int n" using mult_right_mono [OF assms(2) n0] by simp
  note B = b64_result_bounded [OF x0 x1 assms(4)]
  have r: "float_mul_int q n = Inr (Finite (b64_nearest (q * of_int n)))"
    using B(1) by (simp add: float_mul_int_def float_of_int_exact [OF an])
  have full: "q = 1 \<longrightarrow> b64_nearest (q * of_int n) = of_int n"
    using b64_nearest_int [OF an] by simp
  have none: "q = 0 \<longrightarrow> b64_nearest (q * of_int n) = 0" by (simp add: b64_nearest_def)
  from r B(2,3) full none show ?thesis by simp
qed

lemma int_true_div_zero: "b \<noteq> 0 \<Longrightarrow> int_true_div 0 b = Inr 0"
  by (simp add: int_true_div_def b64_result_def b64_nearest_def)

lemma float_mul_int_zero: "float_mul_int 0 n = Inr p \<Longrightarrow> p = Finite 0"
  by (auto simp add: float_mul_int_def b64_result_def b64_nearest_def split: sum.splits)






section \<open>The glyph counts\<close>


lemma glyph_counts_bounded:
  assumes "0 \<le> current_value hb" "current_value hb \<le> max_value hb" "0 < max_value hb"
    and "0 \<le> bar_length hb" "bar_length hb \<le> 2 ^ 53"
  shows "\<exists>r. glyph_counts hb = Inr (r, bar_length hb - r) \<and> 0 \<le> r \<and> r \<le> bar_length hb
           \<and> (current_value hb = max_value hb \<longrightarrow> r = bar_length hb)
           \<and> (current_value hb = 0 \<longrightarrow> r = 0)"
proof -
  from int_true_div_unit [OF assms(1-3)] obtain q where
    q: "int_true_div (current_value hb) (max_value hb) = Inr q" "0 \<le> q" "q \<le> 1"
    "current_value hb = max_value hb \<longrightarrow> q = 1" "current_value hb = 0 \<longrightarrow> q = 0" by blast
  from float_mul_int_unit [OF q(2,3) assms(4,5)] obtain p where
    p: "float_mul_int q (bar_length hb) = Inr (Finite p)" "0 \<le> p" "p \<le> of_int (bar_length hb)"
    "q = 1 \<longrightarrow> p = of_int (bar_length hb)" "q = 0 \<longrightarrow> p = 0" by blast
  define r where "r = round_half_even p"
  have g: "glyph_counts hb = Inr (r, bar_length hb - r)"
    by (simp add: glyph_counts_def q(1) p(1) py_round_def r_def)
  have "round_half_even (of_int 0) \<le> r" unfolding r_def using p(2) by (intro rhe_mono) simp
  then have r0: "0 \<le> r" by (simp only: rhe_of_int)
  have "r \<le> round_half_even (of_int (bar_length hb))" unfolding r_def using p(3) by (rule rhe_mono)
  then have r1: "r \<le> bar_length hb" by (simp only: rhe_of_int)
  have full: "current_value hb = max_value hb \<longrightarrow> r = bar_length hb"
    using q(4) p(4) by (auto simp add: r_def rhe_of_int)
  have none: "current_value hb = 0 \<longrightarrow> r = 0"
    using q(5) p(5) rhe_of_int [of 0] by (auto simp add: r_def)
  from g r0 r1 full none show ?thesis by blast
qed

lemma glyph_counts_sum:
  assumes "glyph_counts hb = Inr (r, l)"
  shows "r + l = bar_length hb"
  using assms by (auto simp add: glyph_counts_def split: sum.splits)

lemma glyph_counts_empty:
  assumes "glyph_counts hb = Inr (r, l)" "current_value hb = 0" "max_value hb \<noteq> 0"
  shows "r = 0"
proof -
  from assms(2,3) have q: "int_true_div (current_value hb) (max_value hb) = Inr 0"
    by (simp add: int_true_div_zero)
  from assms(1) obtain p where p: "float_mul_int 0 (bar_length hb) = Inr p"
    and r: "py_round p = Inr r"
    by (auto simp add: glyph_counts_def q split: sum.splits)
  from p have "p = Finite 0" by (rule float_mul_int_zero)
  with r rhe_of_int [of 0] show ?thesis by (simp add: py_round_def)
qed





section \<open>The glyph counts at particular bars\<close>


lemma float_of_int_2p53_plus_1: "float_of_int (2 ^ 53 + 1) = Inr (2 ^ 53)"
proof -
  have "b64_nearest (2 ^ 53 + 1) = of_int (2 ^ 52) * 2 powi (53 - 52)"
    by (rule b64_nearest_eval) simp_all
  then show ?thesis by (simp add: float_of_int_def b64_result_def)
qed

lemma b64_result_2p53: "b64_result (2 ^ 53) = Finite (2 ^ 53)"
  using b64_nearest_int [of "2 ^ 53"] by (simp add: b64_result_def)

lemma int_true_div_1_1: "int_true_div 1 1 = Inr 1"
  using b64_nearest_int [of 1] by (simp add: int_true_div_def b64_result_def)

lemma int_true_div_25_30: "int_true_div 25 30 = Inr (7505999378950827 / 2 ^ 53)"
proof -
  have "b64_nearest (5 / 6) = of_int 7505999378950827 * 2 powi (- 1 - 52)"
    by (rule b64_nearest_eval) simp_all
  then show ?thesis by (simp add: int_true_div_def b64_result_def)
qed

lemma float_mul_int_25_30_20:
  "float_mul_int (7505999378950827 / 2 ^ 53) 20 = Inr (Finite (4691249611844267 / 2 ^ 48))"
proof -
  have "float_of_int 20 = Inr (of_int 20)" by (rule float_of_int_exact) simp
  moreover have "b64_nearest (7505999378950827 / 2 ^ 53 * 20)
      = of_int 4691249611844267 * 2 powi (4 - 52)"
    by (rule b64_nearest_eval) simp_all
  ultimately show ?thesis by (simp add: float_mul_int_def b64_result_def)
qed

lemma glyph_counts_25_30_20:
  assumes "current_value hb = 25" "max_value hb = 30" "bar_length hb = 20"
  shows "glyph_counts hb = Inr (17, 3)"
proof -
  have "round_half_even (4691249611844267 / 2 ^ 48) = 17"
    by (rule rhe_unique_lt) simp
  then show ?thesis
    by (simp add: glyph_counts_def assms int_true_div_25_30 [simplified]
        float_mul_int_25_30_20 [simplified] py_round_def)
qed

text \<open>The quotient and the product are binary64 values, so the count is the rounding of the
  computed product, not of the exact one: at 23 of 40 and length 100 the product computed is
  just below 57.5 and gives 57, where the exact value 57.5 would round to 58.\<close>

lemma int_true_div_23_40: "int_true_div 23 40 = Inr (5179139571476070 / 2 ^ 53)"
proof -
  have "b64_nearest (23 / 40) = of_int 5179139571476070 * 2 powi (- 1 - 52)"
    by (rule b64_nearest_eval) simp_all
  then show ?thesis by (simp add: int_true_div_def b64_result_def)
qed

lemma float_mul_int_23_40_100:
  "float_mul_int (5179139571476070 / 2 ^ 53) 100 = Inr (Finite (8092405580431359 / 2 ^ 47))"
proof -
  have "float_of_int 100 = Inr (of_int 100)" by (rule float_of_int_exact) simp
  moreover have "b64_nearest (5179139571476070 / 2 ^ 53 * 100)
      = of_int 8092405580431359 * 2 powi (5 - 52)"
    by (rule b64_nearest_eval) simp_all
  ultimately show ?thesis by (simp add: float_mul_int_def b64_result_def)
qed

lemma glyph_counts_23_40_100:
  assumes "current_value hb = 23" "max_value hb = 40" "bar_length hb = 100"
  shows "glyph_counts hb = Inr (57, 43)" and "round_half_even (23 / 40 * 100) = 58"
proof -
  have "round_half_even (8092405580431359 / 2 ^ 47) = 57"
    by (rule rhe_unique_lt) simp
  then show "glyph_counts hb = Inr (57, 43)"
    by (simp add: glyph_counts_def assms int_true_div_23_40 [simplified]
        float_mul_int_23_40_100 [simplified] py_round_def)
  show "round_half_even (23 / 40 * 100) = 58"
    by (rule rhe_unique) simp_all
qed

lemma arena_glyph_counts: "glyph_counts (bars (arena 100 w) 0) = Inr (20, 0)"
proof -
  let ?hb = "bars (arena 100 w) 0"
  have "\<exists>r. glyph_counts ?hb = Inr (r, bar_length ?hb - r) \<and> 0 \<le> r \<and> r \<le> bar_length ?hb
           \<and> (current_value ?hb = max_value ?hb \<longrightarrow> r = bar_length ?hb)
           \<and> (current_value ?hb = 0 \<longrightarrow> r = 0)"
    by (rule glyph_counts_bounded) (simp_all add: arena_bars)
  then show ?thesis by (auto simp add: arena_bars)
qed

section \<open>Decimal numerals\<close>




text \<open>A number has at most \<open>k\<close> digits exactly when it is below \<open>10\<^sup>k\<close>.\<close>

lemma digits10_length_pos: "0 < length (digits10 n)"
  by (subst digits10.simps) simp

lemma digits10_length_le: "0 < k \<Longrightarrow> length (digits10 n) \<le> k \<longleftrightarrow> n < 10 ^ k"
proof (induction n arbitrary: k rule: digits10.induct)
  case (1 n)
  show ?case
  proof (cases "n < 10")
    case True
    have "(10::nat) ^ 1 \<le> 10 ^ k" using "1.prems" by (intro power_increasing) simp_all
    with True have "n < 10 ^ k" by simp
    with True "1.prems" show ?thesis by (simp add: digits10.simps [of n])
  next
    case False
    show ?thesis
    proof (cases "k = 1")
      case True
      with False digits10_length_pos [of "n div 10"] show ?thesis
        by (simp add: digits10.simps [of n])
    next
      case k: False
      with "1.prems" obtain j where j: "k = Suc j" "0 < j" by (cases k) auto
      from "1.IH" [OF False j(2)]
      have "length (digits10 (n div 10)) \<le> j \<longleftrightarrow> n div 10 < 10 ^ j" .
      also have "\<dots> \<longleftrightarrow> n < 10 ^ j * 10" by (simp add: div_less_iff_less_mult)
      finally show ?thesis using False by (simp add: digits10.simps [of n] j(1) mult.commute)
    qed
  qed
qed

lemma str_int_Inr_iff: "(\<exists>d. str_int i = Inr d) \<longleftrightarrow> \<bar>i\<bar> < 10 ^ max_str_digits"
proof -
  have k: "0 < max_str_digits" by (simp add: max_str_digits_def)
  have "(\<exists>d. str_int i = Inr d) \<longleftrightarrow> length (digits10 (nat \<bar>i\<bar>)) \<le> max_str_digits"
    by (auto simp add: str_int_def Let_def)
  also have "\<dots> \<longleftrightarrow> nat \<bar>i\<bar> < 10 ^ max_str_digits" using k by (rule digits10_length_le)
  also have "\<dots> \<longleftrightarrow> \<bar>i\<bar> < int (10 ^ max_str_digits)" by (simp add: nat_less_iff)
  also have "int (10 ^ max_str_digits) = 10 ^ max_str_digits" by simp
  finally show ?thesis .
qed

lemma str_int_Inl_iff: "str_int i = Inl e \<longleftrightarrow> e = ValueError \<and> 10 ^ max_str_digits \<le> \<bar>i\<bar>"
proof -
  have "10 ^ max_str_digits \<le> \<bar>i\<bar> \<longleftrightarrow> \<not> (\<exists>d. str_int i = Inr d)"
    by (simp only: str_int_Inr_iff not_less)
  also have "\<dots> \<longleftrightarrow> str_int i = Inl ValueError"
    by (auto simp add: str_int_def Let_def)
  finally have a: "10 ^ max_str_digits \<le> \<bar>i\<bar> \<longleftrightarrow> str_int i = Inl ValueError" .
  have "str_int i = Inl e \<Longrightarrow> e = ValueError"
    by (auto simp add: str_int_def Let_def split: if_splits)
  with a show ?thesis by auto
qed

lemma str_int_value:
  assumes "\<bar>i\<bar> < 10 ^ max_str_digits"
  shows "str_int i = Inr (if i < 0 then 45 # digits10 (nat \<bar>i\<bar>) else digits10 (nat \<bar>i\<bar>))"
proof -
  from assms obtain d where d: "str_int i = Inr d" using str_int_Inr_iff by blast
  then show ?thesis by (auto simp add: str_int_def Let_def split: if_splits)
qed

lemma small_int_formats: "\<bar>i\<bar> < 10000 \<Longrightarrow> \<bar>i::int\<bar> < 10 ^ max_str_digits"
proof -
  assume a: "\<bar>i\<bar> < 10000"
  have "(10::int) ^ 4 \<le> 10 ^ max_str_digits"
    by (intro power_increasing) (simp_all add: max_str_digits_def)
  then have "(10000::int) \<le> 10 ^ max_str_digits" by simp
  with a show ?thesis by linarith
qed

text \<open>The boundary: \<open>10\<^sup>4\<^sup>3\<^sup>0\<^sup>0 - 1\<close>, of 4300 digits, is formatted, and \<open>10\<^sup>4\<^sup>3\<^sup>0\<^sup>0\<close>, of 4301, is not.\<close>

lemma str_int_boundary:
  "\<exists>d. str_int (10 ^ max_str_digits - 1) = Inr d"
  "str_int (10 ^ max_str_digits) = Inl ValueError"
proof -
  have "(0::int) < 10 ^ max_str_digits" by simp
  then have "\<bar>(10::int) ^ max_str_digits - 1\<bar> < 10 ^ max_str_digits" by linarith
  then show "\<exists>d. str_int (10 ^ max_str_digits - 1) = Inr d" by (simp only: str_int_Inr_iff)
  have "(10::int) ^ max_str_digits \<le> \<bar>10 ^ max_str_digits\<bar>" by simp
  then show "str_int (10 ^ max_str_digits) = Inl ValueError" by (simp only: str_int_Inl_iff)
qed




lemma str_int_5: "str_int 5 = Inr (ascii ''5'')"
proof -
  have "\<bar>5::int\<bar> < 10 ^ max_str_digits" by (rule small_int_formats) simp
  from str_int_value [OF this] show ?thesis by (simp add: digits10.simps ascii_def)
qed

section \<open>attack: what it changes\<close>

lemma attack_state:
  "snd (attack self target s) =
    (let h = max (health (chars s target) - damage (weapons s (weapon (chars s self)))) 0;
         s2 = set_health target h s
     in case health_bar (chars s target) of
          None \<Rightarrow> s2
        | Some hb \<Rightarrow>
            let s3 = update hb s2;
                w = weapons s (weapon (chars s self))
            in case str_int (damage w) of
                 Inl e \<Rightarrow> s3
               | Inr d \<Rightarrow>
                   print (name (chars s self) @ ascii '' attacks '' @ name (chars s target)
                          @ ascii '' with '' @ wname w @ ascii '' for '' @ d
                          @ ascii '' damage.'') s3)"
  by (simp add: attack_def set_health_def update_def print_def Let_def
      split: option.split sum.split)


lemma attack_chars:
  "chars (snd (attack self target s)) =
     (chars s)(target := (chars s target)\<lparr>health :=
        max (health (chars s target) - damage (weapons s (weapon (chars s self)))) 0\<rparr>)"
  by (simp add: attack_state set_health_def update_def print_def Let_def
      split: option.split sum.split)

lemma attack_bars:
  "bars (snd (attack self target s)) =
     (case health_bar (chars s target) of
        None \<Rightarrow> bars s
      | Some hb \<Rightarrow> (bars s)(hb := (bars s hb)\<lparr>current_value :=
          health (chars (snd (attack self target s)) (entity (bars s hb)))\<rparr>))"
  by (simp add: attack_state set_health_def update_def print_def Let_def
      split: option.split sum.split)

lemma attack_result:
  "fst (attack self target s) =
     (case health_bar (chars s target) of
        None \<Rightarrow> Some AttributeError
      | Some hb \<Rightarrow>
          (case str_int (damage (weapons s (weapon (chars s self)))) of
             Inl e \<Rightarrow> Some e
           | Inr d \<Rightarrow> None))"
  by (simp add: attack_def set_health_def update_def Let_def split: option.split sum.split)


lemma attack_rest:
  "weapons (snd (attack self target s)) = weapons s"
  "next_char (snd (attack self target s)) = next_char s"
  "next_bar (snd (attack self target s)) = next_bar s"
  "max_alloc (snd (attack self target s)) = max_alloc s"
  by (simp_all add: attack_state set_health_def update_def print_def Let_def
      split: option.split sum.split)


lemma scenario_1_attack:
  "fst (attack 0 (Suc 0) (arena 100 (Suc 0))) = None"
  "chars (snd (attack 0 (Suc 0) (arena 100 (Suc 0)))) (Suc 0)
     = (chars (arena 100 (Suc 0)) (Suc 0))\<lparr>health := 25\<rparr>"
  "bars (snd (attack 0 (Suc 0) (arena 100 (Suc 0)))) (Suc 0)
     = (bars (arena 100 (Suc 0)) (Suc 0))\<lparr>current_value := 25\<rparr>"
  "stdout (snd (attack 0 (Suc 0) (arena 100 (Suc 0))))
     = [ascii ''Aria attacks Goblin with Fists for 5 damage.'']"
  by (simp_all add: attack_result attack_chars attack_bars attack_state arena_chars arena_bars
      arena_weapons weapon_table_def arena_stdout print_def update_def set_health_def str_int_5
      ascii_def)




text \<open>
  A weapon of negative damage heals: the Goblin's potion of damage \<open>-5\<close> takes Aria from
  100 of 100 health points to 105 of 100.
\<close>

theorem attack_negative_damage_counterexample:
  "0 \<le> health (chars (arena 100 4) 0)
   \<and> health (chars (arena 100 4) 0) \<le> health_max (chars (arena 100 4) 0)
   \<and> damage (weapons (arena 100 4) (weapon (chars (arena 100 4) (Suc 0)))) = - 5
   \<and> health (chars (snd (attack (Suc 0) 0 (arena 100 4))) 0) = 105
   \<and> health_max (chars (snd (attack (Suc 0) 0 (arena 100 4))) 0) = 100"
  by (simp add: attack_chars arena_chars arena_weapons weapon_table_def)

text \<open>
  Claim C2, amended. After \<^verbatim>\<open>attack\<close> the target's health is at least 0, for every damage
  value and every earlier health. If the damage is not negative and \<open>0 \<le> health \<le> health_max\<close>
  held for the target before, the health is at most \<open>health_max\<close> afterwards as well.
\<close>

theorem attack_keeps_health_in_range:
  "0 \<le> health (chars (snd (attack self target s)) target)
   \<and> (0 \<le> damage (weapons s (weapon (chars s self)))
        \<and> 0 \<le> health (chars s target)
        \<and> health (chars s target) \<le> health_max (chars s target)
      \<longrightarrow> health (chars (snd (attack self target s)) target)
            \<le> health_max (chars (snd (attack self target s)) target))"
  by (auto simp add: attack_chars)

theorem attack_keeps_health_in_range_witness:
  "0 \<le> damage (weapons (arena 10 3) (weapon (chars (arena 10 3) (Suc 0))))
   \<and> 0 \<le> health (chars (arena 10 3) 0)
   \<and> health (chars (arena 10 3) 0) \<le> health_max (chars (arena 10 3) 0)
   \<and> 0 \<le> health (chars (snd (attack (Suc 0) 0 (arena 10 3))) 0)
   \<and> health (chars (snd (attack (Suc 0) 0 (arena 10 3))) 0)
        \<le> health_max (chars (snd (attack (Suc 0) 0 (arena 10 3))) 0)"
  using attack_keeps_health_in_range [of "Suc 0" 0 "arena 10 3"]
  by (simp add: arena_chars arena_weapons weapon_table_def)

section \<open>update\<close>

text \<open>
  Claim C4. After \<^verbatim>\<open>update\<close> on a health bar, whatever the state of the store, the bar's
  \<open>current_value\<close> equals the health of the entity it observes.
\<close>

theorem update_syncs_snapshot:
  "current_value (bars (update hb s) hb) = health (chars (update hb s) (entity (bars (update hb s) hb)))"
  by (simp add: update_def)

text \<open>
  Claim C7. \<^verbatim>\<open>update\<close> is idempotent: a second call right after the first leaves the store,
  and with it the bar's \<open>current_value\<close>, as the first call left it.
\<close>

theorem update_idempotent:
  "update hb (update hb s) = update hb s
   \<and> current_value (bars (update hb (update hb s)) hb) = current_value (bars (update hb s) hb)"
  by (simp add: update_def)

section \<open>attack: what it leaves alone\<close>

text \<open>
  Claim C10. \<^verbatim>\<open>attack\<close> changes no weapon, no character other than the target, and of the
  target only its health; it changes no health bar other than the target's, and of any bar only
  its \<open>current_value\<close>. So for an attacker distinct from the target the attacker's name,
  health, \<open>health_max\<close> and weapon are unchanged, and the target's name, \<open>health_max\<close> and
  weapon are unchanged.
\<close>

theorem attack_frame:
  "weapons (snd (attack self target s)) = weapons s
   \<and> (\<forall>c. c \<noteq> target \<longrightarrow> chars (snd (attack self target s)) c = chars s c)
   \<and> chars (snd (attack self target s)) target
       = (chars s target)\<lparr>health := health (chars (snd (attack self target s)) target)\<rparr>
   \<and> (\<forall>b. health_bar (chars s target) \<noteq> Some b \<longrightarrow> bars (snd (attack self target s)) b = bars s b)
   \<and> (\<forall>b. bars (snd (attack self target s)) b
            = (bars s b)\<lparr>current_value := current_value (bars (snd (attack self target s)) b)\<rparr>)
   \<and> (self \<noteq> target \<longrightarrow>
        name (chars (snd (attack self target s)) self) = name (chars s self)
        \<and> health (chars (snd (attack self target s)) self) = health (chars s self)
        \<and> health_max (chars (snd (attack self target s)) self) = health_max (chars s self)
        \<and> weapon (chars (snd (attack self target s)) self) = weapon (chars s self))
   \<and> name (chars (snd (attack self target s)) target) = name (chars s target)
   \<and> health_max (chars (snd (attack self target s)) target) = health_max (chars s target)
   \<and> weapon (chars (snd (attack self target s)) target) = weapon (chars s target)"
  by (simp add: attack_chars attack_bars attack_rest split: option.split)

theorem attack_frame_witness:
  "Suc 0 \<noteq> (0::nat)
   \<and> health_bar (chars (arena 10 3) 0) \<noteq> Some (Suc 0)
   \<and> chars (snd (attack (Suc 0) 0 (arena 10 3))) (Suc 0) = chars (arena 10 3) (Suc 0)
   \<and> bars (snd (attack (Suc 0) 0 (arena 10 3))) (Suc 0) = bars (arena 10 3) (Suc 0)
   \<and> chars (snd (attack (Suc 0) 0 (arena 10 3))) 0 = (chars (arena 10 3) 0)\<lparr>health := 0\<rparr>
   \<and> bars (snd (attack (Suc 0) 0 (arena 10 3))) 0 = (bars (arena 10 3) 0)\<lparr>current_value := 0\<rparr>"
  using attack_frame [of "Suc 0" 0 "arena 10 3"]
  by (simp add: attack_chars attack_bars arena_chars arena_bars arena_weapons weapon_table_def)


section \<open>Printing: the lines of draw\<close>

lemma set_health_bars: "bars (set_health c h s) = bars s"
  by (simp add: set_health_def)

lemma set_health_chars:
  "chars (set_health c h s) c = (chars s c)\<lparr>health := h\<rparr>"
  by (simp add: set_health_def)


text \<open>The health line can be formatted exactly when both of its integers have at most 4300
  digits; otherwise the f-string raises \<^verbatim>\<open>ValueError\<close>.\<close>

lemma header_line_Inr_iff:
  "(\<exists>h. header_line e = Inr h) \<longleftrightarrow>
     \<bar>health e\<bar> < 10 ^ max_str_digits \<and> \<bar>health_max e\<bar> < 10 ^ max_str_digits"
proof -
  have "(\<exists>h. header_line e = Inr h) \<longleftrightarrow>
      (\<exists>a. str_int (health e) = Inr a) \<and> (\<exists>b. str_int (health_max e) = Inr b)"
    by (auto simp add: header_line_def split: sum.splits)
  then show ?thesis by (simp only: str_int_Inr_iff)
qed

lemma header_line_Inl:
  assumes "header_line e = Inl x"
  shows "x = ValueError"
    and "10 ^ max_str_digits \<le> \<bar>health e\<bar> \<or> 10 ^ max_str_digits \<le> \<bar>health_max e\<bar>"
proof -
  from assms have "str_int (health e) = Inl x \<or> str_int (health_max e) = Inl x"
    by (auto simp add: header_line_def split: sum.splits)
  then show "x = ValueError"
    and "10 ^ max_str_digits \<le> \<bar>health e\<bar> \<or> 10 ^ max_str_digits \<le> \<bar>health_max e\<bar>"
    by (auto simp add: str_int_Inl_iff)
qed

lemma header_line_unformattable:
  assumes "10 ^ max_str_digits \<le> \<bar>health e\<bar> \<or> 10 ^ max_str_digits \<le> \<bar>health_max e\<bar>"
  shows "header_line e = Inl ValueError"
proof (cases "header_line e")
  case (Inl x)
  then show ?thesis using header_line_Inl(1) [OF Inl] by simp
next
  case (Inr h)
  then have "\<bar>health e\<bar> < 10 ^ max_str_digits \<and> \<bar>health_max e\<bar> < 10 ^ max_str_digits"
    using header_line_Inr_iff [of e] by blast
  with assms show ?thesis by linarith
qed






text \<open>A health line that cannot be formatted: \<^verbatim>\<open>draw\<close> raises \<^verbatim>\<open>ValueError\<close> before the
  first \<^verbatim>\<open>print\<close>, unless the glyph computation has raised already.\<close>

lemma draw_unformattable:
  assumes "glyph_counts (bars s r) = Inr c"
    and "10 ^ max_str_digits \<le> \<bar>health (chars s (entity (bars s r)))\<bar>
         \<or> 10 ^ max_str_digits \<le> \<bar>health_max (chars s (entity (bars s r)))\<bar>"
  shows "draw r s = (Some ValueError, s)"
  using assms(1) header_line_unformattable [OF assms(2)]
  by (cases c) (simp add: draw_def Let_def)

lemma concat_replicate_single: "concat (replicate n [x]) = replicate n x"
  by (induction n) simp_all

lemma str_repeat_glyph:
  assumes "- (2 ^ 63) \<le> n" "n < 2 ^ 63" "nat n \<le> cap"
  shows "str_repeat cap n [x] = Inr (replicate (nat n) x)"
  using assms by (simp add: str_repeat_def concat_replicate_single)



lemma bar_line_value:
  assumes "- (2 ^ 63) \<le> a" "a < 2 ^ 63" "- (2 ^ 63) \<le> b" "b < 2 ^ 63"
    and "nat a \<le> cap" "nat b \<le> cap"
  shows "bar_line cap hb a b =
    Inr (barrier @ (if is_colored hb then color hb else [])
         @ replicate (nat a) 0x2588 @ replicate (nat b) 0x2591
         @ (if is_colored hb then colors_default else []) @ barrier)"
  using assms by (simp add: bar_line_def symbol_remaining_def symbol_lost_def str_repeat_glyph)

text \<open>A repetition longer than the allocator provides raises \<^verbatim>\<open>MemoryError\<close>.\<close>

lemma str_repeat_too_long:
  assumes "0 < n" "n < 2 ^ 63" "cap < nat n"
  shows "str_repeat cap n [x] = Inl MemoryError"
  using assms by (simp add: str_repeat_def)

lemma bar_line_too_long:
  assumes "0 < a" "a < 2 ^ 63" "cap < nat a"
  shows "bar_line cap hb a b = Inl MemoryError"
  using assms by (simp add: bar_line_def symbol_remaining_def str_repeat_too_long)

section \<open>equip and drop\<close>

lemma Hero_init_hero:
  assumes "Hero_init fists nm hp s = (h, s0)"
  shows "cls_of (chars s0 h) = Hero" "default_weapon (chars s0 h) = Some fists"
    "weapon (chars s0 h) = fists"
  using assms
  by (auto simp add: Hero_init_def Character_init_def HealthBar_init_def Let_def)

lemma equip_hero:
  assumes "cls_of (chars s self) = Hero"
  shows "\<exists>s'. equip self w s = (None, s') \<and> cls_of (chars s' self) = Hero
           \<and> default_weapon (chars s' self) = default_weapon (chars s self)
           \<and> weapon (chars s' self) = w"
  using assms by (simp add: equip_def set_weapon_def print_def Let_def)

lemma equip_all_hero:
  assumes "cls_of (chars s self) = Hero"
  shows "\<exists>s'. equip_all self ws s = (None, s') \<and> cls_of (chars s' self) = Hero
           \<and> default_weapon (chars s' self) = default_weapon (chars s self)
           \<and> weapon (chars s' self) = (if ws = [] then weapon (chars s self) else last ws)"
  using assms
proof (induction ws arbitrary: s)
  case Nil
  then show ?case by simp
next
  case (Cons w ws)
  from equip_hero [OF Cons.prems, of w] obtain s1 where
    e: "equip self w s = (None, s1)" and c: "cls_of (chars s1 self) = Hero"
    and d: "default_weapon (chars s1 self) = default_weapon (chars s self)"
    and w: "weapon (chars s1 self) = w" by blast
  from Cons.IH [OF c] obtain s' where
    "equip_all self ws s1 = (None, s')" "cls_of (chars s' self) = Hero"
    "default_weapon (chars s' self) = default_weapon (chars s1 self)"
    "weapon (chars s' self) = (if ws = [] then weapon (chars s1 self) else last ws)" by blast
  with e d w show ?case by simp
qed

lemma drop_weapon_hero:
  assumes "cls_of (chars s self) = Hero" "default_weapon (chars s self) = Some d"
  shows "\<exists>s'. drop_weapon self s = (None, s') \<and> weapon (chars s' self) = d"
  using assms by (simp add: drop_weapon_def set_weapon_def print_def Let_def)

lemma equip_chars:
  "cls_of (chars s self) = Hero \<Longrightarrow>
     chars (snd (equip self w s)) = (chars s)(self := (chars s self)\<lparr>weapon := w\<rparr>)"
  "cls_of (chars s self) = Hero \<Longrightarrow> weapons (snd (equip self w s)) = weapons s"
  "cls_of (chars s self) = Hero \<Longrightarrow> bars (snd (equip self w s)) = bars s"
  by (simp_all add: equip_def set_weapon_def print_def Let_def)

lemma drop_weapon_chars:
  "cls_of (chars s self) = Hero \<Longrightarrow> default_weapon (chars s self) = Some d \<Longrightarrow>
     chars (snd (drop_weapon self s)) = (chars s)(self := (chars s self)\<lparr>weapon := d\<rparr>)"
  by (simp add: drop_weapon_def set_weapon_def print_def Let_def)

text \<open>Scenario 3 of the spec: Aria equips the sword, attacks the Goblin (30 health points,
  20 damage), and drops: she holds again the reference she held before equipping.\<close>

lemma scenario_3:
  "weapon (chars (snd (equip 0 2 (arena 100 (Suc 0)))) 0) = 2"
  "health (chars (snd (attack 0 (Suc 0) (snd (equip 0 2 (arena 100 (Suc 0)))))) (Suc 0)) = 10"
  "weapon (chars (snd (drop_weapon 0 (snd (attack 0 (Suc 0) (snd (equip 0 2 (arena 100 (Suc 0)))))))) 0)
     = weapon (chars (arena 100 (Suc 0)) 0)"
  by (simp_all add: drop_weapon_chars attack_chars equip_chars arena_chars arena_weapons
      weapon_table_def)

text \<open>
  Claim C6. For a hero just constructed, after any finite sequence of \<^verbatim>\<open>equip\<close> calls with
  arbitrary weapons (none of which raises), one \<^verbatim>\<open>drop\<close> call raises nothing and leaves the
  hero holding the very reference it held at construction, which is the reference of
  \<^verbatim>\<open>fists\<close>.
\<close>

theorem drop_restores_construction_weapon:
  assumes "Hero_init fists nm hp s = (h, s0)"
  shows "\<exists>s1 s2. equip_all h ws s0 = (None, s1) \<and> drop_weapon h s1 = (None, s2)
           \<and> weapon (chars s2 h) = weapon (chars s0 h) \<and> weapon (chars s0 h) = fists"
proof -
  note H = Hero_init_hero [OF assms]
  from equip_all_hero [OF H(1), of ws] obtain s1 where
    e: "equip_all h ws s0 = (None, s1)" and c: "cls_of (chars s1 h) = Hero"
    and d: "default_weapon (chars s1 h) = Some fists" using H(2) by auto
  from drop_weapon_hero [OF c d] obtain s2 where
    "drop_weapon h s1 = (None, s2)" "weapon (chars s2 h) = fists" by blast
  with e H(3) show ?thesis by simp
qed


theorem drop_restores_construction_weapon_witness:
  "Hero_init 0 (ascii ''Aria'') 100 base_world = (0, hero_world)
   \<and> (\<exists>s1 s2. equip_all 0 [2, 1] hero_world = (None, s1) \<and> weapon (chars s1 0) = 1
          \<and> drop_weapon 0 s1 = (None, s2)
          \<and> weapon (chars s2 0) = weapon (chars hero_world 0) \<and> weapon (chars hero_world 0) = 0)"
proof -
  have h: "Hero_init 0 (ascii ''Aria'') 100 base_world = (0, hero_world)"
    by (simp add: hero_world_def Hero_init_def Character_init_def HealthBar_init_def
        base_world_def Let_def)
  from equip_all_hero [OF Hero_init_hero(1) [OF h], of "[2, 1]"]
  have "weapon (chars (snd (equip_all 0 [2, 1] hero_world)) 0) = 1" by auto
  with drop_restores_construction_weapon [OF h, of "[2, 1]"] h show ?thesis by auto
qed

section \<open>The colour of a health bar\<close>

lemma colors_default_entry: "map_of colors ''default'' = Some colors_default"
  by (simp add: colors_default_def colors_def)

lemma resolve_color_known:
  assumes "c \<in> {''red'', ''purple'', ''blue'', ''blue2'', ''blue3'', ''green'', ''green2'',
                  ''yellow'', ''gray'', ''default''}"
  shows "map_of colors c = Some (resolve_color c)"
  using assms by (auto simp add: resolve_color_def colors_def esc_def)

lemma resolve_color_unknown:
  assumes "c \<notin> {''red'', ''purple'', ''blue'', ''blue2'', ''blue3'', ''green'', ''green2'',
                  ''yellow'', ''gray'', ''default''}"
  shows "resolve_color c = colors_default"
proof -
  from assms have "map_of colors c = None" by (simp add: colors_def)
  then show ?thesis by (simp add: resolve_color_def)
qed

lemma HealthBar_init_color:
  "color (bars (snd (HealthBar_init ent len colored c s)) (fst (HealthBar_init ent len colored c s)))
     = resolve_color c"
  by (simp add: HealthBar_init_def Let_def)

text \<open>
  Claim C9. The colour a constructed health bar holds is the palette entry of the name passed to
  the constructor when that name is one of red, purple, blue, blue2, blue3, green, green2,
  yellow, gray, default, and the palette's entry for \<^verbatim>\<open>"default"\<close> for every other name.
\<close>

theorem constructor_resolves_color:
  "(c \<in> {''red'', ''purple'', ''blue'', ''blue2'', ''blue3'', ''green'', ''green2'',
          ''yellow'', ''gray'', ''default''} \<longrightarrow>
      map_of colors c
        = Some (color (bars (snd (HealthBar_init ent len colored c s))
                        (fst (HealthBar_init ent len colored c s)))))
   \<and> (c \<notin> {''red'', ''purple'', ''blue'', ''blue2'', ''blue3'', ''green'', ''green2'',
            ''yellow'', ''gray'', ''default''} \<longrightarrow>
      map_of colors ''default''
        = Some (color (bars (snd (HealthBar_init ent len colored c s))
                        (fst (HealthBar_init ent len colored c s)))))"
proof (intro conjI impI)
  assume "c \<in> {''red'', ''purple'', ''blue'', ''blue2'', ''blue3'', ''green'', ''green2'',
          ''yellow'', ''gray'', ''default''}"
  then show "map_of colors c
        = Some (color (bars (snd (HealthBar_init ent len colored c s))
                        (fst (HealthBar_init ent len colored c s))))"
    unfolding HealthBar_init_color by (rule resolve_color_known)
next
  assume "c \<notin> {''red'', ''purple'', ''blue'', ''blue2'', ''blue3'', ''green'', ''green2'',
          ''yellow'', ''gray'', ''default''}"
  then have "resolve_color c = colors_default" by (rule resolve_color_unknown)
  then show "map_of colors ''default''
        = Some (color (bars (snd (HealthBar_init ent len colored c s))
                        (fst (HealthBar_init ent len colored c s))))"
    unfolding HealthBar_init_color by (simp only: colors_default_entry)
qed

theorem constructor_resolves_color_witness:
  "map_of colors ''red''
     = Some (color (bars (snd (HealthBar_init 0 20 True ''red'' base_world))
                     (fst (HealthBar_init 0 20 True ''red'' base_world))))
   \<and> color (bars (snd (HealthBar_init 0 20 True ''red'' base_world))
                (fst (HealthBar_init 0 20 True ''red'' base_world))) = [27, 91, 57, 49, 109]
   \<and> ''orange'' \<notin> {''red'', ''purple'', ''blue'', ''blue2'', ''blue3'', ''green'', ''green2'',
            ''yellow'', ''gray'', ''default''}
   \<and> map_of colors ''default''
     = Some (color (bars (snd (HealthBar_init 0 20 True ''orange'' base_world))
                     (fst (HealthBar_init 0 20 True ''orange'' base_world))))
   \<and> color (bars (snd (HealthBar_init 0 20 True ''orange'' base_world))
                (fst (HealthBar_init 0 20 True ''orange'' base_world))) = [27, 91, 48, 109]"
  using constructor_resolves_color [of "''red''" 0 20 True base_world]
    constructor_resolves_color [of "''orange''" 0 20 True base_world]
  by (simp add: colors_def esc_def ascii_def)


section \<open>draw: the glyph counts\<close>


text \<open>
  A length that is not a binary64 value: \<open>2\<^sup>5\<^sup>3 + 1\<close> is converted to the float \<open>2\<^sup>5\<^sup>3\<close>, so a
  full bar of that length gets \<open>2\<^sup>5\<^sup>3\<close> filled glyphs and one empty glyph.
\<close>

theorem glyph_counts_huge_length_counterexample:
  "glyph_counts \<lparr>entity = 0, bar_length = 2 ^ 53 + 1, max_value = 1, current_value = 1,
                  is_colored = True, color = []\<rparr> = Inr (2 ^ 53, 1)
   \<and> (2::int) ^ 53 \<noteq> 2 ^ 53 + 1"
  using rhe_of_int [of "2 ^ 53"]
  by (simp add: glyph_counts_def int_true_div_1_1 float_mul_int_def
      float_of_int_2p53_plus_1 [simplified] b64_result_2p53 [simplified] py_round_def)

text \<open>
  Claim C3, amended. For a health bar with \<open>0 \<le> current_value \<le> max_value\<close>, \<open>0 < max_value\<close>
  and \<open>0 < length\<close>: whenever \<^verbatim>\<open>draw\<close> computes glyph counts, they add up to the length, and
  the count of filled glyphs is 0 when \<open>current_value\<close> is 0. When moreover
  \<open>length \<le> 2\<^sup>5\<^sup>3\<close>, \<^verbatim>\<open>draw\<close> does compute the counts, neither count is negative, and all
  glyphs are filled when \<open>current_value = max_value\<close>.
\<close>

theorem glyph_counts_invariant:
  assumes "0 \<le> current_value hb" "current_value hb \<le> max_value hb" "0 < max_value hb"
    and "0 < bar_length hb"
  shows "(\<forall>r l. glyph_counts hb = Inr (r, l) \<longrightarrow>
            r + l = bar_length hb \<and> (current_value hb = 0 \<longrightarrow> r = 0))
         \<and> (bar_length hb \<le> 2 ^ 53 \<longrightarrow>
              (\<exists>r l. glyph_counts hb = Inr (r, l) \<and> r + l = bar_length hb \<and> 0 \<le> r \<and> 0 \<le> l
                 \<and> (current_value hb = max_value hb \<longrightarrow> r = bar_length hb)
                 \<and> (current_value hb = 0 \<longrightarrow> r = 0)))"
proof (intro conjI allI impI)
  fix r l
  assume "glyph_counts hb = Inr (r, l)"
  then show "r + l = bar_length hb" by (rule glyph_counts_sum)
next
  fix r l
  assume "glyph_counts hb = Inr (r, l)" "current_value hb = 0"
  moreover have "max_value hb \<noteq> 0" using assms(3) by simp
  ultimately show "r = 0" by (rule glyph_counts_empty)
next
  assume len: "bar_length hb \<le> 2 ^ 53"
  from assms(4) have "0 \<le> bar_length hb" by simp
  from glyph_counts_bounded [OF assms(1-3) this len] obtain r where
    "glyph_counts hb = Inr (r, bar_length hb - r)" "0 \<le> r" "r \<le> bar_length hb"
    "current_value hb = max_value hb \<longrightarrow> r = bar_length hb" "current_value hb = 0 \<longrightarrow> r = 0"
    by blast
  then show "\<exists>r l. glyph_counts hb = Inr (r, l) \<and> r + l = bar_length hb \<and> 0 \<le> r \<and> 0 \<le> l
                 \<and> (current_value hb = max_value hb \<longrightarrow> r = bar_length hb)
                 \<and> (current_value hb = 0 \<longrightarrow> r = 0)"
    by (intro exI [of _ r] exI [of _ "bar_length hb - r"]) simp
qed

theorem glyph_counts_invariant_witness:
  "glyph_counts (bars (arena 100 1) 0) = Inr (20, 0)
   \<and> glyph_counts ((bars (arena 100 1) 0)\<lparr>current_value := 0\<rparr>) = Inr (0, 20)"
proof -
  let ?full = "bars (arena 100 1) 0"
  let ?none = "(bars (arena 100 1) 0)\<lparr>current_value := 0\<rparr>"
  have f: "0 \<le> current_value ?full" "current_value ?full \<le> max_value ?full"
    "0 < max_value ?full" "0 < bar_length ?full" "bar_length ?full \<le> 2 ^ 53"
    by (simp_all add: arena_bars)
  have n: "0 \<le> current_value ?none" "current_value ?none \<le> max_value ?none"
    "0 < max_value ?none" "0 < bar_length ?none" "bar_length ?none \<le> 2 ^ 53"
    by (simp_all add: arena_bars)
  from glyph_counts_invariant [OF f(1-4)] f(5) obtain r l where
    "glyph_counts ?full = Inr (r, l)" "r + l = bar_length ?full"
    "current_value ?full = max_value ?full \<longrightarrow> r = bar_length ?full" by blast
  then have "glyph_counts ?full = Inr (20, 0)" by (simp add: arena_bars)
  moreover from glyph_counts_invariant [OF n(1-4)] n(5) obtain r l where
    "glyph_counts ?none = Inr (r, l)" "r + l = bar_length ?none"
    "current_value ?none = 0 \<longrightarrow> r = 0" by blast
  then have "glyph_counts ?none = Inr (0, 20)" by (simp add: arena_bars)
  ultimately show ?thesis by simp
qed




section \<open>draw: what the output depends on\<close>

text \<open>Scenario 1 of the spec, to the end: after Aria's attack with her fists, the Goblin's bar
  is drawn with its health line, 17 filled and 3 empty glyphs between the barriers, in red.\<close>

lemma scenario_1_draw:
  "draw (Suc 0) (snd (attack 0 (Suc 0) (arena 100 (Suc 0))))
     = (None, print ([0x2502] @ esc ''91'' @ replicate 17 0x2588 @ replicate 3 0x2591
                      @ esc ''0'' @ [0x2502])
               (print (ascii ''Goblin'' @ 39 # ascii ''s Health: 25/30'')
                  (snd (attack 0 (Suc 0) (arena 100 (Suc 0))))))"
proof -
  let ?s = "snd (attack 0 (Suc 0) (arena 100 (Suc 0)))"
  have g: "glyph_counts (bars ?s (Suc 0)) = Inr (17, 3)"
    by (rule glyph_counts_25_30_20) (simp_all add: scenario_1_attack arena_bars)
  have c: "max_alloc ?s = 1000000" by (simp add: attack_rest arena_max_alloc)
  have l: "bar_line (max_alloc ?s) (bars ?s (Suc 0)) 17 3
      = Inr ([0x2502] @ esc ''91'' @ replicate 17 0x2588 @ replicate 3 0x2591
             @ esc ''0'' @ [0x2502])"
    by (simp add: c bar_line_value scenario_1_attack arena_bars barrier_def resolve_color_def
        colors_def colors_default_def esc_def)
  have "\<bar>25::int\<bar> < 10 ^ max_str_digits" "\<bar>30::int\<bar> < 10 ^ max_str_digits"
    by (rule small_int_formats, simp)+
  then have "str_int 25 = Inr (ascii ''25'')" "str_int 30 = Inr (ascii ''30'')"
    by (simp_all add: str_int_value digits10.simps ascii_def)
  then have h: "header_line (chars ?s (entity (bars ?s (Suc 0))))
      = Inr (ascii ''Goblin'' @ 39 # ascii ''s Health: 25/30'')"
    by (simp add: header_line_def scenario_1_attack arena_bars arena_chars ascii_def)
  show ?thesis by (simp add: draw_def Let_def g l h)
qed

text \<open>The same snapshot of 100 of 100 with a live health of 4301 digits: the health line
  cannot be formatted, so \<^verbatim>\<open>draw\<close> raises \<^verbatim>\<open>ValueError\<close> and prints nothing.\<close>

lemma draw_huge_health:
  "bars (set_health 0 (10 ^ max_str_digits) (arena 100 w)) = bars (arena 100 w)"
  "draw 0 (set_health 0 (10 ^ max_str_digits) (arena 100 w))
     = (Some ValueError, set_health 0 (10 ^ max_str_digits) (arena 100 w))"
  "printed (draw 0) (set_health 0 (10 ^ max_str_digits) (arena 100 w)) = []"
proof -
  let ?s = "set_health 0 (10 ^ max_str_digits) (arena 100 w)"
  show b: "bars ?s = bars (arena 100 w)" by (rule set_health_bars)
  have g: "glyph_counts (bars ?s 0) = Inr (20, 0)" by (simp only: b arena_glyph_counts)
  have e: "entity (bars ?s 0) = 0" by (simp add: b arena_bars)
  have "10 ^ max_str_digits \<le> \<bar>health (chars ?s (entity (bars ?s 0)))\<bar>"
    by (simp add: e set_health_chars)
  then show d: "draw 0 ?s = (Some ValueError, ?s)"
    using g by (intro draw_unformattable [of ?s 0 "(20, 0)"]) simp_all
  show "printed (draw 0) ?s = []" by (simp add: printed_def d)
qed





end
